theory Spec2Isabelle
  imports Main "HOL-Library.AList"
begin

section \<open>Python values and exceptions\<close>

text \<open>
  Every exception the modelled code can raise is a value. \<open>IndexError\<close> carries its
  message (the interpreter's own, or the one written in \<open>spacy_parser.py\<close>);
  \<open>Exception\<close> carries the message given in \<open>candidate.py\<close>. \<open>SQLAlchemyError\<close>
  stands for any exception raised inside the object-relational mapper.
\<close>

datatype error =
    AttributeError
  | IndexError string
  | KeyError string
  | TypeError
  | AssertionError
  | Exception string
  | SQLAlchemyError

text \<open>A comprehension whose element expression may raise: the first exception wins.\<close>

fun collect :: "('a \<Rightarrow> error + 'b) \<Rightarrow> 'a list \<Rightarrow> error + 'b list" where
  "collect f [] = Inr []"
| "collect f (x # xs) =
     (case f x of
        Inl e \<Rightarrow> Inl e
      | Inr y \<Rightarrow> (case collect f xs of Inl e \<Rightarrow> Inl e | Inr ys \<Rightarrow> Inr (y # ys)))"

text \<open>Indexing a sequence with an integer; a negative index counts from the end.\<close>

definition py_index :: "string \<Rightarrow> 'a list \<Rightarrow> int \<Rightarrow> error + 'a" where
  "py_index kind xs key =
     (let k = (if key < 0 then key + int (length xs) else key)
      in if k < 0 \<or> int (length xs) \<le> k
         then Inl (IndexError (kind @ '' index out of range''))
         else Inr (xs ! nat k))"

section \<open>candidate.py: the data model\<close>

text \<open>
  Modelled from the spec: Context is defined in \<open>snorkel/models/context.py\<close>, which is
  not among the sources. The spec gives it a stable identifier (\<open>stable_id\<close>) and a
  \<open>get_parent()\<close> capability returning its owning context; \<open>parent\<close> is what
  \<open>get_parent()\<close> returns, \<open>'p\<close> the type of parents with Python's \<open>==\<close> as equality.
\<close>

record 'p Context =
  stable_id :: string
  parent :: 'p

datatype sqltype = IntegerT | StringT | FloatT

datatype foreign_key = ForeignKey string string

text \<open>
  What a class body (or the dictionary handed to \<open>type\<close>) binds a name to. A
  \<open>Column\<close> object has no name of its own when it is created: it carries here the order
  of its creation in the class body, which is its identity. \<open>Relationship target backref
  fk\<close> refers to the Column object \<open>fk\<close> as its \<open>foreign_keys\<close>, and \<open>TableArgs cols\<close> is
  \<open>(UniqueConstraint(*cols),)\<close> over Column objects.
\<close>

datatype attr =
    TableName string
  | Column nat sqltype "foreign_key option" bool
  | MapperArgs string
  | ArgNames "string list"
  | Relationship string string nat
  | TableArgs "nat list"
  | Method

datatype 'p pyval = NoneV | ContextV "'p Context" | IntV int | StrV string | AttrV attr

text \<open>A class: the base class \<open>Candidate\<close> or a subclass made by \<open>candidate_subclass\<close>.\<close>

record variant =
  cls_name :: string
  attribs :: "string \<rightharpoonup> attr"

text \<open>The body of class \<open>Candidate\<close> (lines 16 to 56).\<close>

definition Candidate_attribs :: "string \<rightharpoonup> attr" where
  "Candidate_attribs =
     [''__tablename__'' \<mapsto> TableName ''candidate'',
      ''id'' \<mapsto> Column 0 IntegerT None True,
      ''type'' \<mapsto> Column 1 StringT None False,
      ''split'' \<mapsto> Column 2 IntegerT None False,
      ''training_marginal'' \<mapsto> Column 3 FloatT None False,
      ''__mapper_args__'' \<mapsto> MapperArgs ''candidate'',
      ''get_contexts'' \<mapsto> Method,
      ''get_parent'' \<mapsto> Method,
      ''get_cids'' \<mapsto> Method,
      ''__len__'' \<mapsto> Method,
      ''__getitem__'' \<mapsto> Method,
      ''__repr__'' \<mapsto> Method,
      ''__hash__'' \<mapsto> Method]"

text \<open>Attribute lookup on a class: its own dictionary first, then the base class.\<close>

definition class_lookup :: "variant \<Rightarrow> string \<Rightarrow> attr option" where
  "class_lookup C name =
     (case attribs C name of Some a \<Rightarrow> Some a | None \<Rightarrow> Candidate_attribs name)"

text \<open>
  An instance: its class and the values of its mapped attributes. A mapped attribute
  (column or relationship) that was never set reads as \<open>None\<close>.
\<close>

record 'p candidate =
  cls :: variant
  vals :: "string \<rightharpoonup> 'p pyval"

definition value_of :: "'p candidate \<Rightarrow> string \<Rightarrow> 'p pyval" where
  "value_of self name = (case vals self name of None \<Rightarrow> NoneV | Some v \<Rightarrow> v)"

definition getattr :: "'p candidate \<Rightarrow> string \<Rightarrow> error + 'p pyval" where
  "getattr self name =
     (case class_lookup (cls self) name of
        None \<Rightarrow> Inl AttributeError
      | Some (Column oid ty fk pk) \<Rightarrow> Inr (value_of self name)
      | Some (Relationship target backref fk) \<Rightarrow> Inr (value_of self name)
      | Some a \<Rightarrow> Inr (AttrV a))"

text \<open>\<open>self.__argnames__\<close>, as far as it can be iterated and measured.\<close>

definition argnames :: "'p candidate \<Rightarrow> error + string list" where
  "argnames self =
     (case class_lookup (cls self) ''__argnames__'' of
        None \<Rightarrow> Inl AttributeError
      | Some (ArgNames names) \<Rightarrow> Inr names
      | Some a \<Rightarrow> Inl TypeError)"

section \<open>candidate.py: the methods of Candidate\<close>

definition get_contexts :: "'p candidate \<Rightarrow> error + 'p pyval list" where
  "get_contexts self =
     (case argnames self of
        Inl e \<Rightarrow> Inl e
      | Inr names \<Rightarrow> collect (getattr self) names)"



definition get_cids :: "'p candidate \<Rightarrow> error + 'p pyval list" where
  "get_cids self =
     (case argnames self of
        Inl e \<Rightarrow> Inl e
      | Inr names \<Rightarrow> collect (\<lambda>name. getattr self (name @ ''_cid'')) names)"




fun Context_stable_id :: "'p pyval \<Rightarrow> error + string" where
  "Context_stable_id (ContextV c) = Inr (stable_id c)"
| "Context_stable_id v = Inl AttributeError"

text \<open>The tuple that line 56 hashes.\<close>

definition stable_id_tuple :: "'p candidate \<Rightarrow> error + string list" where
  "stable_id_tuple self =
     (case get_contexts self of
        Inl e \<Rightarrow> Inl e
      | Inr cs \<Rightarrow> collect Context_stable_id cs)"

text \<open>
  \<open>__hash__\<close>; the built-in \<open>hash\<close> on tuples of strings is the parameter \<open>builtin_hash\<close>.
\<close>

definition Candidate_hash :: "(string list \<Rightarrow> int) \<Rightarrow> 'p candidate \<Rightarrow> error + int" where
  "Candidate_hash builtin_hash self =
     (case stable_id_tuple self of
        Inl e \<Rightarrow> Inl e
      | Inr ids \<Rightarrow> Inr (builtin_hash ids))"

text \<open>
  Instances are objects: a reference into a store of instances. The class body of
  \<open>Candidate\<close> defines \<open>__hash__\<close> and no \<open>__eq__\<close>, \<open>__ne__\<close> or \<open>__cmp__\<close>, so
  \<open>==\<close> on two instances is the comparison every Python object starts with: identity.
\<close>

type_synonym ref = nat

type_synonym 'p store = "ref \<rightharpoonup> 'p candidate"

definition Candidate_eq :: "ref \<Rightarrow> ref \<Rightarrow> bool" where
  "Candidate_eq a b = (a = b)"

section \<open>candidate.py: the schema factory\<close>

text \<open>
  Modelled from the spec: \<open>camel_to_under\<close> is imported from \<open>snorkel/utils.py\<close>, which
  is not among the sources. The spec calls it a case-convention transform of the variant
  name, "NewCandidateClass" giving "new_candidate_class": every upper-case letter is
  lowered, and one that is not the first character gets an underscore in front.
\<close>

definition is_upper :: "char \<Rightarrow> bool" where
  "is_upper c = (65 \<le> (of_char c :: nat) \<and> (of_char c :: nat) \<le> 90)"

definition to_lower :: "char \<Rightarrow> char" where
  "to_lower c = (if is_upper c then char_of (of_char c + 32 :: nat) else c)"

fun under_rest :: "string \<Rightarrow> string" where
  "under_rest [] = []"
| "under_rest (c # cs) =
     (if is_upper c then CHR ''_'' # to_lower c # under_rest cs else c # under_rest cs)"

definition camel_to_under :: "string \<Rightarrow> string" where
  "camel_to_under name = (case name of [] \<Rightarrow> [] | c # cs \<Rightarrow> to_lower c # under_rest cs)"

text \<open>
  A Python dictionary with string keys: the pairs in the order the keys were first
  assigned. \<open>d[k] = v\<close> is \<open>AList.update k v d\<close> and \<open>d[k]\<close> is \<open>map_of d k\<close>.
\<close>

type_synonym pydict = "(string \<times> attr) list"

text \<open>
  The loop of lines 93 to 107, on the state \<open>(class_attribs, unique_con_args, n)\<close>, where
  \<open>n\<close> counts the Column objects created so far. \<open>class_attribs[arg + '_id']\<close> is read
  twice (lines 103 and 104) after line 97 stored the new Column under that key and line
  98 stored a relationship under \<open>arg\<close>, a different key: both reads give the new Column.
\<close>

fun create_named_arguments ::
  "string \<Rightarrow> string list \<Rightarrow> pydict \<times> nat list \<times> nat \<Rightarrow> pydict \<times> nat list \<times> nat" where
  "create_named_arguments table_name [] st = st"
| "create_named_arguments table_name (arg # args) (class_attribs, unique_con_args, n) =
     create_named_arguments table_name args
       (AList.update (arg @ ''_cid'') (Column (Suc n) StringT None False)
          (AList.update arg (Relationship ''Context'' (table_name @ ''_'' @ arg @ ''s'') n)
             (AList.update (arg @ ''_id'')
                (Column n IntegerT (Some (ForeignKey ''context.id'' ''CASCADE'')) False)
                class_attribs)),
        unique_con_args @ [n],
        Suc (Suc n))"

text \<open>The dictionary \<open>class_attribs\<close> of lines 77 to 90.\<close>

definition initial_attribs :: "string \<Rightarrow> string list \<Rightarrow> pydict" where
  "initial_attribs table_name args =
     [(''__tablename__'', TableName table_name),
      (''id'', Column 0 IntegerT (Some (ForeignKey ''candidate.id'' ''CASCADE'')) True),
      (''__mapper_args__'', MapperArgs table_name),
      (''__argnames__'', ArgNames args)]"

text \<open>The dictionary \<open>class_attribs\<close> as line 109 leaves it.\<close>

definition class_attribs :: "string \<Rightarrow> string list \<Rightarrow> pydict" where
  "class_attribs table_name args =
     (case create_named_arguments table_name args (initial_attribs table_name args, [], 1) of
        (dict, unique_con_args, n) \<Rightarrow>
          AList.update ''__table_args__'' (TableArgs unique_con_args) dict)"

text \<open>
  Line 112, \<open>type(class_name, (Candidate,), class_attribs)\<close>, runs the declarative
  metaclass of \<open>SnorkelBase\<close> (SQLAlchemy; \<open>snorkel/models/meta.py\<close> is outside the
  sources). The metaclass builds the table of the class and records it in the MetaData
  of the running process, here the list of the table names declared so far. It raises
  \<^item> when a table of that name is already declared in the process;
  \<^item> when the uniqueness constraint holds a Column object that the dictionary binds to
    no name: such a Column gets no name and no table, and the constraint cannot be
    attached;
  \<^item> in whatever further case the parameter \<open>declarative\<close> answers false.
  Otherwise the class is made of the dictionary and the table name is recorded.
\<close>

definition bound_column :: "pydict \<Rightarrow> nat \<Rightarrow> bool" where
  "bound_column dict c =
     list_ex (\<lambda>(name, a). case a of Column n ty fk pk \<Rightarrow> n = c | _ \<Rightarrow> False) dict"

definition constraint_of :: "pydict \<Rightarrow> nat list" where
  "constraint_of dict =
     (case map_of dict ''__table_args__'' of Some (TableArgs cols) \<Rightarrow> cols | _ \<Rightarrow> [])"

definition declarative_type ::
  "(string \<Rightarrow> pydict \<Rightarrow> bool) \<Rightarrow> string list \<Rightarrow> string \<Rightarrow> string \<Rightarrow> pydict
     \<Rightarrow> error + variant \<times> string list" where
  "declarative_type declarative metadata class_name table_name dict =
     (if table_name \<in> set metadata then Inl SQLAlchemyError
      else if \<not> list_all (bound_column dict) (constraint_of dict) then Inl SQLAlchemyError
      else if \<not> declarative class_name dict then Inl SQLAlchemyError
      else Inr (\<lparr>cls_name = class_name, attribs = map_of dict\<rparr>, metadata @ [table_name]))"

text \<open>
  The database behind \<open>snorkel_engine\<close>: the names of its tables. \<open>create\<close> is
  \<open>C.__table__.create\<close>, the \<open>CREATE TABLE\<close> statement for the table name and the
  uniqueness constraint of the class: the database refuses a name it already has, an
  empty name, and the statement that an empty constraint makes.
\<close>

type_synonym database = "string list"

definition has_table :: "database \<Rightarrow> string \<Rightarrow> bool" where
  "has_table db table_name = (table_name \<in> set db)"

definition create :: "database \<Rightarrow> string \<Rightarrow> nat list \<Rightarrow> error + database" where
  "create db table_name unique_columns =
     (if table_name \<in> set db \<or> table_name = [] \<or> unique_columns = []
      then Inl SQLAlchemyError
      else Inr (db @ [table_name]))"

text \<open>Line 76: the table name, given or derived from the class name.\<close>

definition table_name_of :: "string \<Rightarrow> string option \<Rightarrow> string" where
  "table_name_of class_name table_name_arg =
     (case table_name_arg of None \<Rightarrow> camel_to_under class_name | Some t \<Rightarrow> t)"

text \<open>
  \<open>candidate_subclass\<close>, on the MetaData of the process and the database; it returns
  the class or the exception, and both states as the call leaves them. The function body
  itself has no \<open>raise\<close> and no test on \<open>args\<close>: it fails where line 112 or line 116
  raises.
\<close>

definition candidate_subclass ::
  "(string \<Rightarrow> pydict \<Rightarrow> bool) \<Rightarrow> string \<Rightarrow> string list \<Rightarrow> string option
     \<Rightarrow> string list \<Rightarrow> database \<Rightarrow> (error + variant) \<times> string list \<times> database" where
  "candidate_subclass declarative class_name args table_name_arg metadata db =
     (let table_name = table_name_of class_name table_name_arg;
          dict = class_attribs table_name args
      in case declarative_type declarative metadata class_name table_name dict of
           Inl e \<Rightarrow> (Inl e, metadata, db)
         | Inr (C, metadata') \<Rightarrow>
             if \<not> has_table db table_name then
               (case create db table_name (constraint_of dict) of
                  Inl e \<Rightarrow> (Inl e, metadata', db)
                | Inr db' \<Rightarrow> (Inr C, metadata', db'))
             else (Inr C, metadata', db))"

text \<open>A metaclass without further checks.\<close>

definition accept_all :: "string \<Rightarrow> pydict \<Rightarrow> bool" where
  "accept_all class_name dict = True"

text \<open>
  The attribute names the loop writes for a role list, and the names already taken: by
  the dictionary of lines 77 to 90 and line 109, and by the body of \<open>Candidate\<close>. A role
  list is \<open>valid_roles\<close> when the names it generates are pairwise different and none of
  them is taken.
\<close>

definition generated_names :: "string list \<Rightarrow> string list" where
  "generated_names args = concat (map (\<lambda>arg. [arg @ ''_id'', arg, arg @ ''_cid'']) args)"

definition reserved_names :: "string list" where
  "reserved_names =
     [''__tablename__'', ''id'', ''__mapper_args__'', ''__argnames__'', ''__table_args__'',
      ''type'', ''split'', ''training_marginal'', ''get_contexts'', ''get_parent'',
      ''get_cids'', ''__len__'', ''__getitem__'', ''__repr__'', ''__hash__'']"

definition valid_roles :: "string list \<Rightarrow> bool" where
  "valid_roles args =
     (distinct (generated_names args) \<and>
      list_all (\<lambda>name. name \<notin> set reserved_names) (generated_names args))"

text \<open>
  The names that \<open>len\<close>, \<open>get_contexts\<close> and indexing look up on the class: the two
  entries of the dictionary that the methods and \<open>getattr\<close> can meet, and the three methods.
\<close>

definition read_names :: "string list" where
  "read_names = [''__argnames__'', ''__table_args__'', ''get_contexts'', ''__len__'', ''__getitem__'']"

section \<open>spacy_parser.py: the data the adapter reads and writes\<close>

text \<open>
  What the adapter reads of a spaCy token: \<open>str(token)\<close>, \<open>lemma_\<close>, \<open>tag_\<close>,
  \<open>ent_type_\<close>, \<open>idx\<close>, \<open>i\<close>, \<open>head\<close> and \<open>dep_\<close>. A document hands out one Token
  object per index, so a token is identified by its index \<open>i\<close> in the document:
  \<open>tok_head\<close> is \<open>token.head.i\<close>, and \<open>token.head is token\<close> is \<open>tok_head = tok_i\<close>.
\<close>

record token =
  tok_text :: string
  tok_lemma :: string
  tok_tag :: string
  tok_ent_type :: string
  tok_idx :: int
  tok_i :: int
  tok_head :: int
  tok_dep :: string

text \<open>A sentence (a spaCy span) and a processed spaCy document.\<close>

record span =
  tokens :: "token list"
  span_text :: string
  start_char :: int
  end_char :: int

record spacy_doc =
  is_parsed :: bool
  sents :: "span list"

text \<open>
  The Snorkel document the sentences belong to, as far as the adapter reads it: the two
  entries of \<open>document.meta\<close> that \<open>SpacyPretagged\<close> looks up (a missing key is \<open>None\<close>
  here), \<open>bmb_id\<close> already as the string \<open>str\<close> makes of it.
\<close>

record Document =
  doc_name :: string
  hit_starts :: "int list option"
  bmb_id :: "string option"

text \<open>The record \<open>parts\<close> that \<open>parse_sent\<close> fills and returns.\<close>

record parts =
  words :: "string list"
  lemmas_of :: "string list"
  pos_tags :: "string list"
  ner_tags :: "string list"
  char_offsets :: "int list"
  abs_char_offsets :: "int list"
  dep_parents :: "int list"
  dep_labels :: "string list"
  position :: int
  document_of :: "Document option"
  sent_text :: string
  entity_cids :: "string list"
  entity_types :: "string list"
  sent_stable_id :: "string option"

definition empty_parts :: parts where
  "empty_parts =
     \<lparr>words = [], lemmas_of = [], pos_tags = [], ner_tags = [], char_offsets = [],
      abs_char_offsets = [], dep_parents = [], dep_labels = [], position = 0,
      document_of = None, sent_text = [], entity_cids = [], entity_types = [],
      sent_stable_id = None\<rparr>"

datatype parser = Spacy | SpacyPretagged

section \<open>spacy_parser.py: parse_sent\<close>

text \<open>Line 134; \<open>first\<close> is \<open>sent[0]\<close>.\<close>

definition head_idx :: "token \<Rightarrow> token \<Rightarrow> int" where
  "head_idx first token =
     (if tok_head token = tok_i token then 0 else tok_head token - tok_i first + 1)"

text \<open>The loop of lines 127 to 136 over the tokens of the sentence.\<close>

fun append_tokens :: "token \<Rightarrow> token list \<Rightarrow> parts \<Rightarrow> parts" where
  "append_tokens first [] parts = parts"
| "append_tokens first (token # rest) parts =
     append_tokens first rest
       (parts\<lparr>words := words parts @ [tok_text token],
              lemmas_of := lemmas_of parts @ [tok_lemma token],
              pos_tags := pos_tags parts @ [tok_tag token],
              ner_tags := ner_tags parts @
                 [if tok_ent_type token \<noteq> [] then tok_ent_type token else ''O''],
              char_offsets := char_offsets parts @ [tok_idx token],
              abs_char_offsets := abs_char_offsets parts @ [tok_idx token],
              dep_parents := dep_parents parts @ [head_idx first token],
              dep_labels := dep_labels parts @ [tok_dep token]\<rparr>)"

text \<open>Lines 139 to 141: the element expression reads index 0 only when there is an element.\<close>

definition relative_offsets :: "int list \<Rightarrow> int list" where
  "relative_offsets offsets =
     (case offsets of [] \<Rightarrow> [] | p0 # rest \<Rightarrow> map (\<lambda>p. p - p0) offsets)"

text \<open>\<open>Spacy.update_entity_attributes\<close> (lines 160 to 162).\<close>

definition null_entities :: "parts \<Rightarrow> parts" where
  "null_entities parts =
     parts\<lparr>entity_cids := map (\<lambda>w. ''O'') (words parts),
           entity_types := map (\<lambda>w. ''O'') (words parts)\<rparr>"

text \<open>
  The loop of lines 170 to 180 of \<open>SpacyPretagged\<close>. The test
  \<open>hit <= x <= document.meta['hit_starts']\<close> compares the integer \<open>x\<close> with a list on its
  right, which Python 2 (the file uses \<open>unicode\<close>) answers with true: the index is that
  of the first token whose absolute offset is at least \<open>hit\<close>. Every \<open>IndexError\<close> inside
  the \<open>try\<close> is raised again with the message of line 180.
\<close>

fun overlay_hits :: "Document \<Rightarrow> int list \<Rightarrow> parts \<Rightarrow> error + parts" where
  "overlay_hits d [] parts = Inr parts"
| "overlay_hits d (hit # hits) parts =
     (case filter (\<lambda>i. hit \<le> abs_char_offsets parts ! i) [0..<length (abs_char_offsets parts)] of
        [] \<Rightarrow> Inl (IndexError ''SpacyPretagged: hit location does not align in tokens'')
      | index # others \<Rightarrow>
          if \<not> index < length (entity_types parts)
          then Inl (IndexError ''SpacyPretagged: hit location does not align in tokens'')
          else (case bmb_id d of
             None \<Rightarrow> Inl (KeyError ''bmb_id'')
           | Some b \<Rightarrow>
               if \<not> index < length (entity_cids parts) \<or> \<not> index < length (words parts)
               then Inl (IndexError ''SpacyPretagged: hit location does not align in tokens'')
               else if words parts ! index \<noteq> ''BmBTarget'' then Inl AssertionError
               else overlay_hits d hits
                      (parts\<lparr>entity_types := (entity_types parts)[index := ''hit''],
                             entity_cids := (entity_cids parts)[index := b]\<rparr>)))"

text \<open>\<open>self.update_entity_attributes\<close>, dispatched on the class of the parser.\<close>

fun update_entity_attributes ::
  "parser \<Rightarrow> parts \<Rightarrow> span \<Rightarrow> Document option \<Rightarrow> error + parts" where
  "update_entity_attributes Spacy parts sent doc = Inr (null_entities parts)"
| "update_entity_attributes SpacyPretagged parts sent doc =
     (case doc of
        None \<Rightarrow> Inl AttributeError
      | Some d \<Rightarrow>
          (case hit_starts d of
             None \<Rightarrow> Inl (KeyError ''hit_starts'')
           | Some starts \<Rightarrow>
               overlay_hits d
                 (filter (\<lambda>x. start_char sent \<le> x \<and> x \<le> end_char sent) starts)
                 (null_entities parts)))"

text \<open>
  \<open>parse_sent\<close>. \<open>construct_stable_id\<close> is imported from \<open>snorkel.models\<close>, outside
  the sources: it is the parameter \<open>construct_stable_id\<close>, which may raise.
\<close>

definition parse_sent ::
  "parser \<Rightarrow> (Document \<Rightarrow> string \<Rightarrow> int \<Rightarrow> int \<Rightarrow> error + string)
     \<Rightarrow> span \<Rightarrow> Document option \<Rightarrow> int \<Rightarrow> error + parts" where
  "parse_sent self construct_stable_id sent doc pos =
     (let filled = (case tokens sent of
                      [] \<Rightarrow> empty_parts
                    | first # rest \<Rightarrow> append_tokens first (tokens sent) empty_parts);
          parts = filled\<lparr>char_offsets := relative_offsets (char_offsets filled),
                         position := pos, document_of := doc, sent_text := span_text sent\<rparr>
      in case update_entity_attributes self parts sent doc of
           Inl e \<Rightarrow> Inl e
         | Inr parts \<Rightarrow>
             (case py_index ''list'' (abs_char_offsets parts) 0 of
                Inl e \<Rightarrow> Inl e
              | Inr abs_sent_offset \<Rightarrow>
                  (case py_index ''list'' (char_offsets parts) (- 1) of
                     Inl e \<Rightarrow> Inl e
                   | Inr last_offset \<Rightarrow>
                       (case py_index ''list'' (words parts) (- 1) of
                          Inl e \<Rightarrow> Inl e
                        | Inr last_word \<Rightarrow>
                            (case doc of
                               None \<Rightarrow> Inr parts
                             | Some d \<Rightarrow>
                                 (case construct_stable_id d ''sentence'' abs_sent_offset
                                         (abs_sent_offset + last_offset + int (length last_word)) of
                                    Inl e \<Rightarrow> Inl e
                                  | Inr sid \<Rightarrow> Inr (parts\<lparr>sent_stable_id := Some sid\<rparr>)))))))"

section \<open>spacy_parser.py: parse\<close>

text \<open>
  What the generator does, in order: \<open>Yield\<close> for a record handed to the consumer,
  \<open>Warn position e\<close> for the call of \<open>logger.warn\<close> at line 121.
\<close>

datatype event = is_Yield: Yield parts | Warn int error

text \<open>The loop of lines 114 to 121; \<open>position\<close> advances only after a sentence parsed.\<close>

fun sentences_loop ::
  "parser \<Rightarrow> (Document \<Rightarrow> string \<Rightarrow> int \<Rightarrow> int \<Rightarrow> error + string)
     \<Rightarrow> Document option \<Rightarrow> int \<Rightarrow> span list \<Rightarrow> event list" where
  "sentences_loop self csi doc pos [] = []"
| "sentences_loop self csi doc pos (sent # rest) =
     (case parse_sent self csi sent doc pos of
        Inr parts \<Rightarrow> Yield parts # sentences_loop self csi doc (pos + 1) rest
      | Inl e \<Rightarrow> Warn pos e # sentences_loop self csi doc pos rest)"

text \<open>
  \<open>parse\<close>, from the processed spaCy document on (lines 111 to 121): the assertion,
  then the loop over \<open>doc.sents\<close>.
\<close>

definition parse ::
  "parser \<Rightarrow> (Document \<Rightarrow> string \<Rightarrow> int \<Rightarrow> int \<Rightarrow> error + string)
     \<Rightarrow> Document option \<Rightarrow> spacy_doc \<Rightarrow> error + event list" where
  "parse self csi doc spacy =
     (if \<not> is_parsed spacy then Inl AssertionError
      else Inr (sentences_loop self csi doc 0 (sents spacy)))"

section \<open>Example objects\<close>

text \<open>
  The relation of the Snorkel tutorial, \<open>candidate_subclass('Spouse', ['person1',
  'person2'])\<close>, three spans of one document with parents 7, 7 and 8, and instances
  over them. \<open>example_store\<close> holds the same pair twice, as two objects, and a pair whose
  second span differs.
\<close>

definition Spouse :: variant where
  "Spouse =
     \<lparr>cls_name = ''Spouse'', attribs = map_of (class_attribs ''spouse'' [''person1'', ''person2''])\<rparr>"

definition span_a :: "nat Context" where
  "span_a = \<lparr>stable_id = ''doc1::span:0:3'', parent = 7\<rparr>"

definition span_b :: "nat Context" where
  "span_b = \<lparr>stable_id = ''doc1::span:8:11'', parent = 7\<rparr>"

definition span_c :: "nat Context" where
  "span_c = \<lparr>stable_id = ''doc1::span:40:43'', parent = 8\<rparr>"

definition example_pair :: "nat candidate" where
  "example_pair =
     \<lparr>cls = Spouse, vals = [''person1'' \<mapsto> ContextV span_a, ''person2'' \<mapsto> ContextV span_b]\<rparr>"

definition example_split :: "nat candidate" where
  "example_split =
     \<lparr>cls = Spouse, vals = [''person1'' \<mapsto> ContextV span_a, ''person2'' \<mapsto> ContextV span_c]\<rparr>"

definition example_store :: "nat store" where
  "example_store = [0 \<mapsto> example_pair, 1 \<mapsto> example_pair, 2 \<mapsto> example_split]"

text \<open>
  The MetaData of a process that has imported the module (the class \<open>Candidate\<close> has
  declared its table), and, for a name \<open>r\<close>, the class that
  \<open>candidate_subclass('Shadowed', [r])\<close> makes and an instance of it with nothing bound.
\<close>

definition imported :: "string list" where
  "imported = [''candidate'']"



text \<open>A stand-in for the built-in \<open>hash\<close>.\<close>

definition example_hash :: "string list \<Rightarrow> int" where
  "example_hash ids = int (length (concat ids))"

text \<open>
  The sentence "Ann met Bob." as the second sentence of a document (its first token is
  token 5, at character 20), the record \<open>parse_sent\<close> makes of it, a sentence without
  tokens, and a document of three sentences.
\<close>

definition example_sent :: span where
  "example_sent =
     \<lparr>tokens =
        [\<lparr>tok_text = ''Ann'', tok_lemma = ''ann'', tok_tag = ''NNP'', tok_ent_type = ''PERSON'',
          tok_idx = 20, tok_i = 5, tok_head = 6, tok_dep = ''nsubj''\<rparr>,
         \<lparr>tok_text = ''met'', tok_lemma = ''meet'', tok_tag = ''VBD'', tok_ent_type = [],
          tok_idx = 24, tok_i = 6, tok_head = 6, tok_dep = ''ROOT''\<rparr>,
         \<lparr>tok_text = ''Bob'', tok_lemma = ''bob'', tok_tag = ''NNP'', tok_ent_type = ''PERSON'',
          tok_idx = 28, tok_i = 7, tok_head = 6, tok_dep = ''dobj''\<rparr>,
         \<lparr>tok_text = ''.'', tok_lemma = ''.'', tok_tag = ''.'', tok_ent_type = [],
          tok_idx = 31, tok_i = 8, tok_head = 6, tok_dep = ''punct''\<rparr>],
      span_text = ''Ann met Bob.'', start_char = 20, end_char = 32\<rparr>"

definition example_record :: "int \<Rightarrow> parts" where
  "example_record pos =
     \<lparr>words = [''Ann'', ''met'', ''Bob'', ''.''],
      lemmas_of = [''ann'', ''meet'', ''bob'', ''.''],
      pos_tags = [''NNP'', ''VBD'', ''NNP'', ''.''],
      ner_tags = [''PERSON'', ''O'', ''PERSON'', ''O''],
      char_offsets = [0, 4, 8, 11],
      abs_char_offsets = [20, 24, 28, 31],
      dep_parents = [2, 0, 2, 2],
      dep_labels = [''nsubj'', ''ROOT'', ''dobj'', ''punct''],
      position = pos, document_of = None, sent_text = ''Ann met Bob.'',
      entity_cids = [''O'', ''O'', ''O'', ''O''],
      entity_types = [''O'', ''O'', ''O'', ''O''],
      sent_stable_id = None\<rparr>"

definition empty_sent :: span where
  "empty_sent = \<lparr>tokens = [], span_text = [], start_char = 32, end_char = 32\<rparr>"

definition example_doc :: spacy_doc where
  "example_doc = \<lparr>is_parsed = True, sents = [example_sent, empty_sent, example_sent]\<rparr>"

text \<open>A stand-in for \<open>construct_stable_id\<close>; the examples parse without a document.\<close>

definition no_stable_id :: "Document \<Rightarrow> string \<Rightarrow> int \<Rightarrow> int \<Rightarrow> error + string" where
  "no_stable_id d kind start end = Inl TypeError"

section \<open>Auxiliary facts: sequences\<close>

lemma collect_map_Inr:
  "(\<And>x. x \<in> set xs \<Longrightarrow> f x = Inr (g x)) \<Longrightarrow> collect f xs = Inr (map g xs)"
  by (induction xs) auto


lemma py_index_0: "py_index kind xs 0 = Inr x \<Longrightarrow> xs \<noteq> []"
  by (auto simp: py_index_def split: if_splits)

lemma relative_offsets_nth:
  "i < length xs \<Longrightarrow> relative_offsets xs ! i = xs ! i - xs ! 0"
  by (cases xs; cases i) (auto simp: relative_offsets_def)

lemma relative_offsets_length: "length (relative_offsets xs) = length xs"
  by (cases xs) (auto simp: relative_offsets_def)

section \<open>Auxiliary facts: the loop of the schema factory\<close>

lemma generated_names_Cons:
  "generated_names (a # args) = [a @ ''_id'', a, a @ ''_cid''] @ generated_names args"
  by (simp add: generated_names_def)

lemma role_in_generated:
  "i < length args \<Longrightarrow> args ! i \<in> set (generated_names args)"
  "i < length args \<Longrightarrow> args ! i @ ''_id'' \<in> set (generated_names args)"
  by (auto simp: generated_names_def)

lemma generated_names_cases:
  "k \<in> set (generated_names args) \<Longrightarrow>
     k \<in> set args \<or> (\<exists>r\<in>set args. k = r @ ''_id'') \<or> (\<exists>r\<in>set args. k = r @ ''_cid'')"
  by (auto simp: generated_names_def)

lemma valid_rolesD:
  assumes "valid_roles args"
  shows "distinct (generated_names args)"
    and "\<And>k. k \<in> set reserved_names \<Longrightarrow> k \<notin> set (generated_names args)"
  using assms by (auto simp: valid_roles_def list_all_iff)

text \<open>The constraint list and the counter after the loop.\<close>

lemma cna_snd:
  "snd (create_named_arguments t args (d, u, n)) =
     (u @ map (\<lambda>k. n + 2 * k) [0..<length args], n + 2 * length args)"
proof (induction args arbitrary: d u n)
  case Nil
  show ?case by simp
next
  case (Cons a args)
  have "map (\<lambda>k. n + 2 * k) [0..<Suc (length args)] =
        n # map (\<lambda>k. Suc (Suc n) + 2 * k) [0..<length args]"
    by (simp add: upt_conv_Cons map_Suc_upt [symmetric] del: upt_Suc)
  with Cons show ?case by simp
qed

text \<open>The keys stay pairwise different.\<close>

lemma cna_distinct:
  "distinct (map fst d) \<Longrightarrow> distinct (map fst (fst (create_named_arguments t args (d, u, n))))"
  by (induction args arbitrary: d u n) (simp_all add: distinct_update)

text \<open>A key the loop does not write keeps its entry.\<close>

lemma cna_other:
  "k \<notin> set (generated_names args) \<Longrightarrow>
     map_of (fst (create_named_arguments t args (d, u, n))) k = map_of d k"
  by (induction args arbitrary: d u n) (auto simp: generated_names_def update_conv')

text \<open>A key the loop writes is bound to a column or a relationship afterwards.\<close>

lemma cna_written:
  "k \<in> set (generated_names args) \<Longrightarrow>
     (\<exists>m ty fk pk. map_of (fst (create_named_arguments t args (d, u, n))) k =
         Some (Column m ty fk pk)) \<or>
     (\<exists>target backref m. map_of (fst (create_named_arguments t args (d, u, n))) k =
         Some (Relationship target backref m))"
proof (induction args arbitrary: d u n)
  case Nil
  then show ?case by (simp add: generated_names_def)
next
  case (Cons a args)
  show ?case
  proof (cases "k \<in> set (generated_names args)")
    case True
    from Cons.IH [OF this] show ?thesis by simp
  next
    case False
    with Cons.prems have "k = a @ ''_id'' \<or> k = a \<or> k = a @ ''_cid''"
      by (simp add: generated_names_Cons)
    with False show ?thesis
      by (auto simp: cna_other update_conv')
  qed
qed


text \<open>
  Every Column in the dictionary after the loop was there before or is one the loop
  made; the Column of \<open>{role i}_id\<close> is there only if no later turn wrote that key.
\<close>

lemma cna_columns:
  "map_of (fst (create_named_arguments t args (d, u, n))) k = Some (Column m ty fk pk) \<Longrightarrow>
     (k \<notin> set (generated_names args) \<and> map_of d k = Some (Column m ty fk pk))
     \<or> (\<exists>i<length args. k = args ! i @ ''_id'' \<and> m = n + 2 * i \<and>
           k \<notin> set (generated_names (drop (Suc i) args)))
     \<or> (\<exists>i<length args. k = args ! i @ ''_cid'' \<and> m = Suc (n + 2 * i))"
proof (induction args arbitrary: d u n)
  case Nil
  then show ?case by (simp add: generated_names_def)
next
  case (Cons a args)
  let ?d = "AList.update (a @ ''_cid'') (Column (Suc n) StringT None False)
          (AList.update a (Relationship ''Context'' (t @ ''_'' @ a @ ''s'') n)
             (AList.update (a @ ''_id'')
                (Column n IntegerT (Some (ForeignKey ''context.id'' ''CASCADE'')) False) d))"
  from Cons.prems
  have "map_of (fst (create_named_arguments t args (?d, u @ [n], Suc (Suc n)))) k =
          Some (Column m ty fk pk)"
    by simp
  from Cons.IH [OF this]
  consider (old) "k \<notin> set (generated_names args)" "map_of ?d k = Some (Column m ty fk pk)"
    | (rid) i where "i < length args" "k = args ! i @ ''_id''" "m = Suc (Suc n) + 2 * i"
        "k \<notin> set (generated_names (drop (Suc i) args))"
    | (cid) i where "i < length args" "k = args ! i @ ''_cid''" "m = Suc (Suc (Suc n) + 2 * i)"
    by blast
  then show ?case
  proof cases
    case old
    show ?thesis
    proof (cases "k = a @ ''_cid''")
      case True
      with old have "0 < length (a # args) \<and> k = (a # args) ! 0 @ ''_cid'' \<and> m = Suc (n + 2 * 0)"
        by (simp add: update_conv')
      then show ?thesis by blast
    next
      case c: False
      show ?thesis
      proof (cases "k = a")
        case True
        with old c show ?thesis by (simp add: update_conv')
      next
        case r: False
        show ?thesis
        proof (cases "k = a @ ''_id''")
          case True
          with old c r have "0 < length (a # args) \<and> k = (a # args) ! 0 @ ''_id'' \<and>
              m = n + 2 * 0 \<and> k \<notin> set (generated_names (drop (Suc 0) (a # args)))"
            by (simp add: update_conv')
          then show ?thesis by blast
        next
          case False
          with old c r show ?thesis
            by (simp add: update_conv' generated_names_Cons)
        qed
      qed
    qed
  next
    case rid
    then have "Suc i < length (a # args) \<and> k = (a # args) ! Suc i @ ''_id'' \<and>
               m = n + 2 * Suc i \<and> k \<notin> set (generated_names (drop (Suc (Suc i)) (a # args)))"
      by simp
    then show ?thesis by blast
  next
    case cid
    then have "Suc i < length (a # args) \<and> k = (a # args) ! Suc i @ ''_cid'' \<and>
               m = Suc (n + 2 * Suc i)"
      by simp
    then show ?thesis by blast
  qed
qed

section \<open>Auxiliary facts: the class the factory builds\<close>

lemma class_attribs_eq:
  "class_attribs t args =
     AList.update ''__table_args__'' (TableArgs (map (\<lambda>k. 1 + 2 * k) [0..<length args]))
       (fst (create_named_arguments t args (initial_attribs t args, [], 1)))"
proof -
  obtain d u n where r: "create_named_arguments t args (initial_attribs t args, [], 1) = (d, u, n)"
    by (cases "create_named_arguments t args (initial_attribs t args, [], 1)") auto
  with cna_snd [of t args "initial_attribs t args" "[]" 1]
  show ?thesis by (simp add: class_attribs_def)
qed

lemma class_attribs_lookup:
  "map_of (class_attribs t args) k =
     (if k = ''__table_args__'' then Some (TableArgs (map (\<lambda>k. 1 + 2 * k) [0..<length args]))
      else map_of (fst (create_named_arguments t args (initial_attribs t args, [], 1))) k)"
  by (simp add: class_attribs_eq update_conv')

lemma constraint_of_class_attribs:
  "constraint_of (class_attribs t args) = map (\<lambda>k. 1 + 2 * k) [0..<length args]"
  by (simp add: constraint_of_def class_attribs_lookup)

lemma class_attribs_distinct: "distinct (map fst (class_attribs t args))"
  by (simp add: class_attribs_eq distinct_update cna_distinct initial_attribs_def)

lemma class_attribs_reserved:
  assumes "valid_roles args"
  shows "map_of (class_attribs t args) ''__argnames__'' = Some (ArgNames args)"
    and "map_of (class_attribs t args) ''__tablename__'' = Some (TableName t)"
    and "map_of (class_attribs t args) ''__mapper_args__'' = Some (MapperArgs t)"
    and "map_of (class_attribs t args) ''__table_args__'' =
           Some (TableArgs (map (\<lambda>k. 1 + 2 * k) [0..<length args]))"
  using valid_rolesD(2) [OF assms]
  by (simp_all add: class_attribs_lookup cna_other reserved_names_def initial_attribs_def)


lemma class_attribs_columns:
  assumes "map_of (class_attribs t args) name = Some (Column m ty fk pk)"
  shows "(name = ''id'' \<and> m = 0)
     \<or> (\<exists>i<length args. name = args ! i @ ''_id'' \<and> m = 1 + 2 * i \<and>
           name \<notin> set (generated_names (drop (Suc i) args)))
     \<or> (\<exists>i<length args. name = args ! i @ ''_cid'' \<and> m = Suc (1 + 2 * i))"
proof -
  from assms have "name \<noteq> ''__table_args__''"
    and "map_of (fst (create_named_arguments t args (initial_attribs t args, [], 1))) name =
           Some (Column m ty fk pk)"
    by (auto simp: class_attribs_lookup split: if_splits)
  from cna_columns [OF this(2)] show ?thesis
    by (auto simp: initial_attribs_def split: if_splits)
qed

text \<open>A Column object that the metaclass finds bound is the entry of some key.\<close>

lemma bound_column_lookup:
  assumes "bound_column dict c" and "distinct (map fst dict)"
  shows "\<exists>k ty fk pk. map_of dict k = Some (Column c ty fk pk)"
proof -
  from assms(1) obtain k a where "(k, a) \<in> set dict"
    and "case a of Column n ty fk pk \<Rightarrow> n = c | _ \<Rightarrow> False"
    by (auto simp: bound_column_def list_ex_iff)
  then obtain ty fk pk where "(k, Column c ty fk pk) \<in> set dict"
    by (cases a) auto
  with assms(2) have "map_of dict k = Some (Column c ty fk pk)" by simp
  then show ?thesis by blast
qed

text \<open>
  With a duplicated role the Column made for its first occurrence is in the constraint
  and bound to no name: the later occurrence has overwritten its key.
\<close>

lemma duplicate_unbound:
  assumes "\<not> distinct args"
  shows "\<not> list_all (bound_column (class_attribs t args)) (constraint_of (class_attribs t args))"
proof
  assume all: "list_all (bound_column (class_attribs t args)) (constraint_of (class_attribs t args))"
  from assms obtain i j where ij: "i < j" "j < length args" "args ! i = args ! j"
  proof -
    from assms obtain a b where "a < length args" "b < length args" "a \<noteq> b" "args ! a = args ! b"
      by (auto simp: distinct_conv_nth)
    then show ?thesis
      by (cases "a < b") (auto intro: that [of a b] that [of b a])
  qed
  then have "1 + 2 * i \<in> set (constraint_of (class_attribs t args))"
    by (auto simp: constraint_of_class_attribs)
  with all have "bound_column (class_attribs t args) (1 + 2 * i)"
    by (simp add: list_all_iff)
  from bound_column_lookup [OF this class_attribs_distinct]
  obtain k ty fk pk where "map_of (class_attribs t args) k = Some (Column (1 + 2 * i) ty fk pk)"
    by blast
  from class_attribs_columns [OF this]
  show False
  proof (elim disjE exE conjE)
    assume "1 + 2 * i = 0"
    then show False by simp
  next
    fix i'
    assume "1 + 2 * i = 1 + 2 * i'" and k: "k = args ! i' @ ''_id''"
      "k \<notin> set (generated_names (drop (Suc i') args))"
    then have i': "i' = i" by simp
    from ij have "j - Suc i < length (drop (Suc i) args)"
      and "drop (Suc i) args ! (j - Suc i) = args ! j"
      by simp_all
    from role_in_generated(2) [OF this(1)] this(2)
    have "args ! j @ ''_id'' \<in> set (generated_names (drop (Suc i) args))" by simp
    with k i' ij(3) show False by simp
  next
    fix i'
    assume "1 + 2 * i = Suc (1 + 2 * i')"
    then have "2 * i = Suc (2 * i')" by simp
    then show False by presburger
  qed
qed

text \<open>The whole of \<open>candidate_subclass\<close> in one equation.\<close>

lemma candidate_subclass_eq:
  "candidate_subclass declarative class_name args table_name_arg metadata db =
     (if table_name_of class_name table_name_arg \<in> set metadata
         \<or> \<not> list_all (bound_column (class_attribs (table_name_of class_name table_name_arg) args))
               (constraint_of (class_attribs (table_name_of class_name table_name_arg) args))
         \<or> \<not> declarative class_name (class_attribs (table_name_of class_name table_name_arg) args)
      then (Inl SQLAlchemyError, metadata, db)
      else if has_table db (table_name_of class_name table_name_arg)
      then (Inr \<lparr>cls_name = class_name,
                 attribs = map_of (class_attribs (table_name_of class_name table_name_arg) args)\<rparr>,
            metadata @ [table_name_of class_name table_name_arg], db)
      else if table_name_of class_name table_name_arg = [] \<or> args = []
      then (Inl SQLAlchemyError, metadata @ [table_name_of class_name table_name_arg], db)
      else (Inr \<lparr>cls_name = class_name,
                 attribs = map_of (class_attribs (table_name_of class_name table_name_arg) args)\<rparr>,
            metadata @ [table_name_of class_name table_name_arg],
            db @ [table_name_of class_name table_name_arg]))"
  by (simp add: candidate_subclass_def declarative_type_def Let_def create_def has_table_def
      constraint_of_class_attribs)

lemma candidate_subclass_produced:
  assumes "candidate_subclass declarative class_name args table_name_arg metadata db =
             (Inr C, metadata', db')"
  shows "attribs C = map_of (class_attribs (table_name_of class_name table_name_arg) args)"
    and "db' = (if has_table db (table_name_of class_name table_name_arg) then db
                else db @ [table_name_of class_name table_name_arg])"
    and "metadata' = metadata @ [table_name_of class_name table_name_arg]"
    and "table_name_of class_name table_name_arg \<notin> set metadata"
    and "list_all (bound_column (class_attribs (table_name_of class_name table_name_arg) args))
           (constraint_of (class_attribs (table_name_of class_name table_name_arg) args))"
    and "declarative class_name (class_attribs (table_name_of class_name table_name_arg) args)"
  using assms by (auto simp: candidate_subclass_eq split: if_splits)

text \<open>No name that the methods read on the class ends like a generated key.\<close>

lemma read_name_not_generated:
  assumes "k \<in> set read_names" and "k \<notin> set args"
  shows "k \<notin> set (generated_names args)"
proof
  assume "k \<in> set (generated_names args)"
  from generated_names_cases [OF this] assms(2)
  obtain r where "k = r @ ''_id'' \<or> k = r @ ''_cid''" by blast
  then have "last k = CHR ''d''" by auto
  with assms(1) show False by (auto simp: read_names_def)
qed

lemma produced_argnames:
  assumes "candidate_subclass declarative class_name args table_name_arg metadata db =
             (Inr C, metadata', db')"
    and "list_all (\<lambda>r. r \<notin> set read_names) args" and "cls self = C"
  shows "argnames self = Inr args"
proof -
  have "''__argnames__'' \<notin> set args"
    using assms(2) by (auto simp: list_all_iff read_names_def)
  then have "''__argnames__'' \<notin> set (generated_names args)"
    by (intro read_name_not_generated) (simp_all add: read_names_def)
  then show ?thesis
    using assms(3) candidate_subclass_produced(1) [OF assms(1)]
    by (simp add: argnames_def class_lookup_def class_attribs_lookup cna_other initial_attribs_def)
qed

lemma produced_get_contexts:
  assumes "candidate_subclass declarative class_name args table_name_arg metadata db =
             (Inr C, metadata', db')"
    and "list_all (\<lambda>r. r \<notin> set read_names) args" and "cls self = C"
  shows "get_contexts self = Inr (map (value_of self) args)"
proof -
  let ?t = "table_name_of class_name table_name_arg"
  have "getattr self name = Inr (value_of self name)" if "name \<in> set args" for name
  proof -
    from that assms(2) have ne: "name \<noteq> ''__table_args__''"
      by (auto simp: list_all_iff read_names_def)
    from that have "name \<in> set (generated_names args)"
      by (auto simp: generated_names_def)
    from cna_written [OF this, of ?t "initial_attribs ?t args" "[]" 1] ne
    have "(\<exists>m ty fk pk. map_of (class_attribs ?t args) name = Some (Column m ty fk pk)) \<or>
          (\<exists>target backref m. map_of (class_attribs ?t args) name =
             Some (Relationship target backref m))"
      by (simp add: class_attribs_lookup)
    with assms(3) candidate_subclass_produced(1) [OF assms(1)]
    show ?thesis
      by (auto simp: getattr_def class_lookup_def)
  qed
  with produced_argnames [OF assms] collect_map_Inr [of args "getattr self" "value_of self"]
  show ?thesis
    by (simp add: get_contexts_def)
qed


section \<open>Auxiliary facts: the example objects\<close>

lemma Spouse_produced:
  "candidate_subclass accept_all ''Spouse'' [''person1'', ''person2''] None imported [] =
     (Inr Spouse, [''candidate'', ''spouse''], [''spouse''])"
proof -
  have "camel_to_under ''Spouse'' = ''spouse''" by code_simp
  moreover have "list_all (bound_column (class_attribs ''spouse'' [''person1'', ''person2'']))
      (constraint_of (class_attribs ''spouse'' [''person1'', ''person2'']))"
    by code_simp
  ultimately show ?thesis
    by (simp add: candidate_subclass_eq accept_all_def Spouse_def table_name_of_def has_table_def
        imported_def)
qed

lemma Spouse_roles: "valid_roles [''person1'', ''person2'']"
  by (simp add: valid_roles_def generated_names_def reserved_names_def)

lemma Spouse_read: "list_all (\<lambda>r. r \<notin> set read_names) [''person1'', ''person2'']"
  by (simp add: read_names_def)

lemma example_pair_contexts: "get_contexts example_pair = Inr (map ContextV [span_a, span_b])"
proof -
  have "cls example_pair = Spouse" by (simp add: example_pair_def)
  from produced_get_contexts [OF Spouse_produced Spouse_read this]
  show ?thesis by (simp add: value_of_def example_pair_def)
qed

lemma example_split_contexts: "get_contexts example_split = Inr (map ContextV [span_a, span_c])"
proof -
  have "cls example_split = Spouse" by (simp add: example_split_def)
  from produced_get_contexts [OF Spouse_produced Spouse_read this]
  show ?thesis by (simp add: value_of_def example_split_def)
qed



lemma example_sent_parsed: "parse_sent Spacy csi example_sent None pos = Inr (example_record pos)"
  by (simp add: parse_sent_def example_sent_def example_record_def empty_parts_def
      head_idx_def relative_offsets_def null_entities_def py_index_def)

lemma empty_sent_fails:
  "parse_sent Spacy csi empty_sent None pos = Inl (IndexError ''list index out of range'')"
  by (simp add: parse_sent_def empty_sent_def empty_parts_def
      relative_offsets_def null_entities_def py_index_def)

lemma example_doc_parsed:
  "parse Spacy no_stable_id None example_doc =
     Inr [Yield (example_record 0), Warn 1 (IndexError ''list index out of range''),
          Yield (example_record 1)]"
  by (simp add: parse_def example_doc_def example_sent_parsed empty_sent_fails)

section \<open>Auxiliary facts: the parser adapter\<close>

lemma append_tokens_fields:
  "char_offsets (append_tokens first toks parts) = char_offsets parts @ map tok_idx toks"
  "abs_char_offsets (append_tokens first toks parts) = abs_char_offsets parts @ map tok_idx toks"
  "dep_parents (append_tokens first toks parts) = dep_parents parts @ map (head_idx first) toks"
  by (induction toks arbitrary: parts; simp)+

text \<open>Neither version of \<open>update_entity_attributes\<close> touches the offsets or the parents.\<close>

lemma overlay_hits_keeps:
  "overlay_hits d hits parts = Inr parts' \<Longrightarrow>
     char_offsets parts' = char_offsets parts \<and>
     abs_char_offsets parts' = abs_char_offsets parts \<and>
     dep_parents parts' = dep_parents parts"
proof (induction d hits parts rule: overlay_hits.induct)
  case (1 d parts)
  then show ?case by simp
next
  case (2 d hit hits parts)
  from "2.prems" show ?case
    by (auto split: list.splits if_splits option.splits dest!: "2.IH" simp del: upt.simps)
qed

lemma update_entity_attributes_keeps:
  "update_entity_attributes self parts sent doc = Inr parts' \<Longrightarrow>
     char_offsets parts' = char_offsets parts \<and>
     abs_char_offsets parts' = abs_char_offsets parts \<and>
     dep_parents parts' = dep_parents parts"
  by (cases self)
     (auto simp: null_entities_def split: option.splits dest!: overlay_hits_keeps)

text \<open>What a record returned by \<open>parse_sent\<close> holds, in terms of the sentence.\<close>

lemma parse_sent_lists:
  assumes "parse_sent self csi sent doc pos = Inr parts"
  shows "tokens sent \<noteq> []"
    and "abs_char_offsets parts = map tok_idx (tokens sent)"
    and "char_offsets parts = relative_offsets (map tok_idx (tokens sent))"
    and "dep_parents parts = map (head_idx (hd (tokens sent))) (tokens sent)"
proof -
  define filled where "filled = (case tokens sent of [] \<Rightarrow> empty_parts
     | first # rest \<Rightarrow> append_tokens first (tokens sent) empty_parts)"
  define p1 where "p1 = filled\<lparr>char_offsets := relative_offsets (char_offsets filled),
      position := pos, document_of := doc, sent_text := span_text sent\<rparr>"
  from assms obtain p2 where upd: "update_entity_attributes self p1 sent doc = Inr p2"
    and fin: "parts = p2 \<or> (\<exists>sid. parts = p2\<lparr>sent_stable_id := Some sid\<rparr>)"
    and ne: "abs_char_offsets p2 \<noteq> []"
    unfolding parse_sent_def Let_def filled_def [symmetric] p1_def [symmetric]
    by (auto split: sum.splits option.splits dest: py_index_0)
  from fin have same: "char_offsets parts = char_offsets p2"
      "abs_char_offsets parts = abs_char_offsets p2" "dep_parents parts = dep_parents p2"
    by auto
  from update_entity_attributes_keeps [OF upd]
  have keep: "char_offsets p2 = char_offsets p1" "abs_char_offsets p2 = abs_char_offsets p1"
      "dep_parents p2 = dep_parents p1" by simp_all
  have filled: "abs_char_offsets filled = map tok_idx (tokens sent)"
     "char_offsets filled = map tok_idx (tokens sent)"
     "dep_parents filled = map (head_idx (hd (tokens sent))) (tokens sent)"
    by (auto simp: filled_def empty_parts_def append_tokens_fields split: list.splits)
  show "abs_char_offsets parts = map tok_idx (tokens sent)"
    using same keep filled by (simp add: p1_def)
  with ne same show "tokens sent \<noteq> []" by auto
  show "char_offsets parts = relative_offsets (map tok_idx (tokens sent))"
    using same keep filled by (simp add: p1_def)
  show "dep_parents parts = map (head_idx (hd (tokens sent))) (tokens sent)"
    using same keep filled by (simp add: p1_def)
qed

lemma sentences_loop_yield:
  "Yield parts \<in> set (sentences_loop self csi doc pos ss) \<Longrightarrow>
     \<exists>s p. s \<in> set ss \<and> parse_sent self csi s doc p = Inr parts"
proof (induction ss arbitrary: pos)
  case Nil
  then show ?case by simp
next
  case (Cons s ss)
  then show ?case
    by (cases "parse_sent self csi s doc pos") fastforce+
qed

lemma sentences_loop_append:
  "sentences_loop self csi doc pos (xs @ ys) =
     sentences_loop self csi doc pos xs @
     sentences_loop self csi doc
       (pos + int (length (filter is_Yield (sentences_loop self csi doc pos xs)))) ys"
proof (induction xs arbitrary: pos)
  case Nil
  show ?case by simp
next
  case (Cons s xs)
  show ?case
    by (cases "parse_sent self csi s doc pos") (simp_all add: Cons.IH add.assoc)
qed

lemma sentences_loop_length: "length (sentences_loop self csi doc pos ss) = length ss"
  by (induction ss arbitrary: pos) (auto split: sum.splits)

section \<open>Candidate: identity, parents, arity\<close>

text \<open>
  C1, as amended. For two Candidate objects of a store whose ordered tuples of stable
  identifiers match, the hashes match: each is the built-in hash of that tuple. Two
  objects whose tuples differ are not equal. (Equality itself is object identity, so
  matching tuples do not make two objects equal: see the counterexample.)
\<close>

theorem hash_by_stable_ids:
  assumes "store a = Some x" and "store b = Some y"
  shows "(\<forall>ids. stable_id_tuple x = Inr ids \<and> stable_id_tuple y = Inr ids \<longrightarrow>
            Candidate_hash builtin_hash x = Inr (builtin_hash ids) \<and>
            Candidate_hash builtin_hash y = Inr (builtin_hash ids)) \<and>
         (stable_id_tuple x \<noteq> stable_id_tuple y \<longrightarrow> \<not> Candidate_eq a b)"
  using assms by (auto simp: Candidate_hash_def Candidate_eq_def)

text \<open>
  C1, witness: objects 0 and 1 of the example store hold the same pair of spans and
  hash alike; object 2 has another tuple and is not equal to object 0.
\<close>

theorem hash_by_stable_ids_witness:
  "example_store 0 = Some example_pair \<and> example_store 1 = Some example_pair \<and>
   example_store 2 = Some example_split \<and>
   stable_id_tuple example_pair = Inr [''doc1::span:0:3'', ''doc1::span:8:11''] \<and>
   Candidate_hash example_hash example_pair = Inr 29 \<and>
   stable_id_tuple example_split = Inr [''doc1::span:0:3'', ''doc1::span:40:43''] \<and>
   \<not> Candidate_eq 0 2"
proof -
  have s: "example_store 0 = Some example_pair" "example_store 1 = Some example_pair"
    "example_store 2 = Some example_split"
    by (simp_all add: example_store_def)
  have t: "stable_id_tuple example_pair = Inr [''doc1::span:0:3'', ''doc1::span:8:11'']"
    "stable_id_tuple example_split = Inr [''doc1::span:0:3'', ''doc1::span:40:43'']"
    by (simp_all add: stable_id_tuple_def example_pair_contexts example_split_contexts
        span_a_def span_b_def span_c_def)
  have h: "example_hash [''doc1::span:0:3'', ''doc1::span:8:11''] = 29"
    by (simp add: example_hash_def)
  from hash_by_stable_ids [OF s(1) s(2), of example_hash] t(1) h
  have "Candidate_hash example_hash example_pair = Inr 29" by simp
  moreover from hash_by_stable_ids [OF s(1) s(3), of example_hash] t
  have "\<not> Candidate_eq 0 2" by simp
  ultimately show ?thesis using s t by simp
qed

text \<open>
  C1, counterexample to the claim as stated: objects 0 and 1 of the example store have
  the same tuple of stable identifiers and are not equal.
\<close>

theorem equal_ids_unequal_objects:
  "example_store 0 = Some example_pair \<and> example_store 1 = Some example_pair \<and>
   stable_id_tuple example_pair = Inr [''doc1::span:0:3'', ''doc1::span:8:11''] \<and>
   \<not> Candidate_eq 0 1"
  by (simp add: example_store_def stable_id_tuple_def example_pair_contexts Candidate_eq_def
      span_a_def span_b_def)






section \<open>The schema factory\<close>

text \<open>
  C2, as amended. With a role list that has duplicate names the call fails at the
  construction of the class and leaves the declared tables and the database as they
  were. With an empty role list the call fails whenever the database does not have the
  table, and leaves the database as it was. (With an empty role list and a database
  that has the table the call returns a class: see the counterexample.)
\<close>

theorem invalid_roles_fail:
  assumes "\<not> distinct args \<or>
           (args = [] \<and> \<not> has_table db (table_name_of class_name table_name_arg))"
  shows "\<exists>metadata'.
           candidate_subclass declarative class_name args table_name_arg metadata db =
             (Inl SQLAlchemyError, metadata', db) \<and>
           (\<not> distinct args \<longrightarrow> metadata' = metadata)"
proof (cases "distinct args")
  case False
  from duplicate_unbound [OF this] False show ?thesis
    by (simp add: candidate_subclass_eq)
next
  case True
  with assms have "args = []"
    and "\<not> has_table db (table_name_of class_name table_name_arg)" by simp_all
  then show ?thesis
    by (simp add: candidate_subclass_eq)
qed

text \<open>
  C2, witness: a duplicated role is refused and nothing changes; no roles on an empty
  database fail when the table is to be created, after the class was declared.
\<close>

theorem invalid_roles_fail_witness:
  "\<not> distinct [''a'', ''a''] \<and>
   candidate_subclass accept_all ''Pair'' [''a'', ''a''] None imported [] =
     (Inl SQLAlchemyError, imported, []) \<and>
   \<not> has_table [] (table_name_of ''Empty'' None) \<and>
   candidate_subclass accept_all ''Empty'' [] None imported [] =
     (Inl SQLAlchemyError, [''candidate'', ''empty''], [])"
proof -
  have d: "\<not> distinct [''a'', ''a''] \<or>
      ([''a'', ''a''] = [] \<and> \<not> has_table [] (table_name_of ''Pair'' None))"
    by simp
  have e: "\<not> distinct ([]::string list) \<or>
      (([]::string list) = [] \<and> \<not> has_table [] (table_name_of ''Empty'' None))"
    by (simp add: has_table_def)
  have c: "camel_to_under ''Empty'' = ''empty''" by code_simp
  have b: "list_all (bound_column (class_attribs ''empty'' []))
      (constraint_of (class_attribs ''empty'' []))"
    by code_simp
  from invalid_roles_fail [OF d, of accept_all imported]
  have pair: "candidate_subclass accept_all ''Pair'' [''a'', ''a''] None imported [] =
     (Inl SQLAlchemyError, imported, [])"
    by auto
  from invalid_roles_fail [OF e, of accept_all imported]
  obtain m where m: "candidate_subclass accept_all ''Empty'' [] None imported [] =
     (Inl SQLAlchemyError, m, [])"
    by blast
  have "candidate_subclass accept_all ''Empty'' [] None imported [] =
     (Inl SQLAlchemyError, [''candidate'', ''empty''], [])"
    using c b
    by (simp add: candidate_subclass_eq table_name_of_def imported_def accept_all_def
        has_table_def)
  with m pair show ?thesis
    by (simp add: has_table_def)
qed

text \<open>
  C2, counterexample to the claim as stated: in a new process, on a database that has
  the table \<open>spouse\<close>, the call with no roles returns a class.
\<close>

theorem empty_roles_accepted:
  "candidate_subclass accept_all ''Spouse'' [] None imported [''spouse''] =
     (Inr \<lparr>cls_name = ''Spouse'', attribs = map_of (class_attribs ''spouse'' [])\<rparr>,
      [''candidate'', ''spouse''], [''spouse''])"
proof -
  have "camel_to_under ''Spouse'' = ''spouse''" by code_simp
  moreover have "list_all (bound_column (class_attribs ''spouse'' []))
      (constraint_of (class_attribs ''spouse'' []))"
    by code_simp
  ultimately show ?thesis
    by (simp add: candidate_subclass_eq accept_all_def table_name_of_def has_table_def
        imported_def)
qed



text \<open>
  C6, as amended. When a call of the factory has returned a class, it has created the
  table only if the database did not have it. The same call in a new process, where the
  table is not declared yet, on the resulting database returns the same class, does not
  fail and leaves the database as it is. The same call in the same process fails at the
  construction of the class, the table being declared there already, and leaves the
  database as it is.
\<close>

theorem repeated_definition:
  assumes "candidate_subclass declarative class_name args table_name_arg metadata db =
             (Inr C, metadata1, db1)"
    and "table_name_of class_name table_name_arg \<notin> set fresh"
  shows "db1 = (if has_table db (table_name_of class_name table_name_arg) then db
                else db @ [table_name_of class_name table_name_arg]) \<and>
         candidate_subclass declarative class_name args table_name_arg fresh db1 =
           (Inr C, fresh @ [table_name_of class_name table_name_arg], db1) \<and>
         candidate_subclass declarative class_name args table_name_arg metadata1 db1 =
           (Inl SQLAlchemyError, metadata1, db1)"
  using assms by (auto simp: candidate_subclass_eq has_table_def split: if_splits)

text \<open>
  C6, witness: \<open>Spouse\<close> defined on an empty database, then again in a new process and
  again in the same process.
\<close>

theorem repeated_definition_witness:
  "candidate_subclass accept_all ''Spouse'' [''person1'', ''person2''] None imported [] =
     (Inr Spouse, [''candidate'', ''spouse''], [''spouse'']) \<and>
   table_name_of ''Spouse'' None \<notin> set imported \<and>
   candidate_subclass accept_all ''Spouse'' [''person1'', ''person2''] None imported [''spouse''] =
     (Inr Spouse, [''candidate'', ''spouse''], [''spouse'']) \<and>
   candidate_subclass accept_all ''Spouse'' [''person1'', ''person2''] None
       [''candidate'', ''spouse''] [''spouse''] =
     (Inl SQLAlchemyError, [''candidate'', ''spouse''], [''spouse''])"
proof -
  have c: "camel_to_under ''Spouse'' = ''spouse''" by code_simp
  then have t: "table_name_of ''Spouse'' None = ''spouse''"
    by (simp add: table_name_of_def)
  then have f: "table_name_of ''Spouse'' None \<notin> set imported"
    by (simp add: imported_def)
  have i: "imported @ [''spouse''] = [''candidate'', ''spouse'']"
    by (simp add: imported_def)
  note r = repeated_definition [OF Spouse_produced f, unfolded t i]
  from r have "candidate_subclass accept_all ''Spouse'' [''person1'', ''person2''] None imported
      [''spouse''] = (Inr Spouse, [''candidate'', ''spouse''], [''spouse''])"
    by blast
  moreover from r have "candidate_subclass accept_all ''Spouse'' [''person1'', ''person2''] None
       [''candidate'', ''spouse''] [''spouse''] =
     (Inl SQLAlchemyError, [''candidate'', ''spouse''], [''spouse''])"
    by blast
  ultimately show ?thesis
    using Spouse_produced f by blast
qed

text \<open>
  C6, counterexample to the claim as stated: the call that has just defined \<open>Spouse\<close>,
  repeated in the same process on the resulting database, fails.
\<close>

theorem repeated_in_process_fails:
  "candidate_subclass accept_all ''Spouse'' [''person1'', ''person2''] None imported [] =
     (Inr Spouse, [''candidate'', ''spouse''], [''spouse'']) \<and>
   candidate_subclass accept_all ''Spouse'' [''person1'', ''person2''] None
       [''candidate'', ''spouse''] [''spouse''] =
     (Inl SQLAlchemyError, [''candidate'', ''spouse''], [''spouse''])"
proof -
  have "camel_to_under ''Spouse'' = ''spouse''" by code_simp
  then have "candidate_subclass accept_all ''Spouse'' [''person1'', ''person2''] None
       [''candidate'', ''spouse''] [''spouse''] =
     (Inl SQLAlchemyError, [''candidate'', ''spouse''], [''spouse''])"
    by (simp add: candidate_subclass_eq table_name_of_def)
  with Spouse_produced show ?thesis by simp
qed

text \<open>
  C7. When no table name is given, the class the factory returns (for a role list whose
  generated names are pairwise different and not taken) has the name derived from the
  class name by \<open>camel_to_under\<close> both as \<open>__tablename__\<close> and as polymorphic identity,
  and the database has a table of that name; "NewCandidateClass" gives
  "new_candidate_class".
\<close>

theorem derived_table_name:
  assumes "candidate_subclass declarative class_name args None metadata db =
             (Inr C, metadata', db')"
    and "valid_roles args"
  shows "attribs C ''__tablename__'' = Some (TableName (camel_to_under class_name)) \<and>
         attribs C ''__mapper_args__'' = Some (MapperArgs (camel_to_under class_name)) \<and>
         has_table db' (camel_to_under class_name) \<and>
         camel_to_under ''NewCandidateClass'' = ''new_candidate_class''"
proof -
  have t: "table_name_of class_name None = camel_to_under class_name"
    by (simp add: table_name_of_def)
  have ex: "camel_to_under ''NewCandidateClass'' = ''new_candidate_class''"
    by code_simp
  from candidate_subclass_produced(1,2) [OF assms(1)] class_attribs_reserved(2,3) [OF assms(2)] t ex
  show ?thesis by (auto simp: has_table_def)
qed

text \<open>C7, witness: \<open>Spouse\<close> is stored in table \<open>spouse\<close> under the identity \<open>spouse\<close>.\<close>

theorem derived_table_name_witness:
  "candidate_subclass accept_all ''Spouse'' [''person1'', ''person2''] None imported [] =
     (Inr Spouse, [''candidate'', ''spouse''], [''spouse'']) \<and>
   valid_roles [''person1'', ''person2''] \<and>
   attribs Spouse ''__tablename__'' = Some (TableName ''spouse'') \<and>
   attribs Spouse ''__mapper_args__'' = Some (MapperArgs ''spouse'') \<and>
   has_table [''spouse''] ''spouse''"
proof -
  have c: "camel_to_under ''Spouse'' = ''spouse''" by code_simp
  from derived_table_name [OF Spouse_produced Spouse_roles] c Spouse_produced Spouse_roles
  show ?thesis by simp
qed

section \<open>The parser adapter\<close>

text \<open>
  C8. In the record \<open>parse_sent\<close> returns for a sentence (a span: its tokens have
  consecutive document indices), \<open>dep_parents\<close> has one entry per token; the entry of
  token \<open>k\<close> is 0 when the token is its own head, and \<open>j + 1\<close> when its head is another
  token of the sentence, the one at position \<open>j\<close> counted from 0.
\<close>

theorem dep_parents_index:
  assumes "parse_sent self csi sent doc pos = Inr parts"
    and "\<forall>j<length (tokens sent). tok_i (tokens sent ! j) = tok_i (tokens sent ! 0) + int j"
    and "k < length (tokens sent)"
  shows "length (dep_parents parts) = length (tokens sent) \<and>
         (tok_head (tokens sent ! k) = tok_i (tokens sent ! k) \<longrightarrow> dep_parents parts ! k = 0) \<and>
         (\<forall>j<length (tokens sent).
            j \<noteq> k \<and> tok_head (tokens sent ! k) = tok_i (tokens sent ! j)
              \<longrightarrow> dep_parents parts ! k = int j + 1)"
proof -
  note l = parse_sent_lists [OF assms(1)]
  have hd0: "hd (tokens sent) = tokens sent ! 0"
    using l(1) by (simp add: hd_conv_nth)
  have dp: "dep_parents parts ! k = head_idx (tokens sent ! 0) (tokens sent ! k)"
    using l(4) assms(3) hd0 by simp
  have own: "tok_i (tokens sent ! k) = tok_i (tokens sent ! 0) + int k"
    using assms(2,3) by simp
  show ?thesis
  proof (intro conjI allI impI)
    show "length (dep_parents parts) = length (tokens sent)" using l(4) by simp
    show "dep_parents parts ! k = 0" if "tok_head (tokens sent ! k) = tok_i (tokens sent ! k)"
      using that dp by (simp add: head_idx_def)
    show "dep_parents parts ! k = int j + 1"
      if "j < length (tokens sent)"
        and "j \<noteq> k \<and> tok_head (tokens sent ! k) = tok_i (tokens sent ! j)" for j
    proof -
      from that assms(2) have "tok_head (tokens sent ! k) = tok_i (tokens sent ! 0) + int j"
        by simp
      with that own dp show ?thesis by (simp add: head_idx_def)
    qed
  qed
qed

text \<open>
  C8, witness: in "Ann met Bob." the root "met" gets 0, and "Ann" and "." get 2, the
  position of "met" counted from 1.
\<close>

theorem dep_parents_index_witness:
  "parse_sent Spacy no_stable_id example_sent None 0 = Inr (example_record 0) \<and>
   map tok_i (tokens example_sent) = [5, 6, 7, 8] \<and>
   map tok_head (tokens example_sent) = [6, 6, 6, 6] \<and>
   dep_parents (example_record 0) ! 1 = 0 \<and>
   dep_parents (example_record 0) ! 0 = 2 \<and>
   dep_parents (example_record 0) ! 3 = 2"
proof -
  have a: "parse_sent Spacy no_stable_id example_sent None 0 = Inr (example_record 0)"
    by (rule example_sent_parsed)
  have b: "\<forall>j<length (tokens example_sent).
      tok_i (tokens example_sent ! j) = tok_i (tokens example_sent ! 0) + int j"
    by (simp add: example_sent_def less_Suc_eq numeral_eq_Suc all_conj_distrib)
  have l: "(0::nat) < length (tokens example_sent)" "(1::nat) < length (tokens example_sent)"
    "(3::nat) < length (tokens example_sent)"
    by (simp_all add: example_sent_def)
  have t: "tok_head (tokens example_sent ! 1) = tok_i (tokens example_sent ! 1)"
    "tok_head (tokens example_sent ! 0) = tok_i (tokens example_sent ! 1)"
    "tok_head (tokens example_sent ! 3) = tok_i (tokens example_sent ! 1)"
    by (simp_all add: example_sent_def)
  have r1: "dep_parents (example_record 0) ! 1 = 0"
    using dep_parents_index [OF a b l(2)] t(1) by blast
  have "\<forall>j<length (tokens example_sent).
      j \<noteq> 0 \<and> tok_head (tokens example_sent ! 0) = tok_i (tokens example_sent ! j)
        \<longrightarrow> dep_parents (example_record 0) ! 0 = int j + 1"
    using dep_parents_index [OF a b l(1)] by blast
  then have r0: "dep_parents (example_record 0) ! 0 = 2"
    using l(2) t(2) by (elim allE [of _ 1]) simp
  have "\<forall>j<length (tokens example_sent).
      j \<noteq> 3 \<and> tok_head (tokens example_sent ! 3) = tok_i (tokens example_sent ! j)
        \<longrightarrow> dep_parents (example_record 0) ! 3 = int j + 1"
    using dep_parents_index [OF a b l(3)] by blast
  then have r3: "dep_parents (example_record 0) ! 3 = 2"
    using l(2) t(3) by (elim allE [of _ 1]) simp
  have m: "map tok_i (tokens example_sent) = [5, 6, 7, 8]"
    "map tok_head (tokens example_sent) = [6, 6, 6, 6]"
    by (simp_all add: example_sent_def)
  from a m r0 r1 r3 show ?thesis by blast
qed

text \<open>
  C9. When \<open>parse_sent\<close> raises on a sentence of a parsed document, \<open>parse\<close> does not
  raise: after the events of the sentences before it, it logs one warning with the
  position reached and the exception, yields nothing for that sentence, and goes on with
  every sentence after it from the same position.
\<close>

theorem parse_skips_failed_sentence:
  assumes "is_parsed spacy" and "sents spacy = before @ s # after"
    and "n = int (length (filter is_Yield (sentences_loop self csi doc 0 before)))"
    and "parse_sent self csi s doc n = Inl e"
  shows "parse self csi doc spacy =
           Inr (sentences_loop self csi doc 0 before @ Warn n e #
                sentences_loop self csi doc n after) \<and>
         length (sentences_loop self csi doc n after) = length after"
  using assms by (simp add: parse_def sentences_loop_append sentences_loop_length)

text \<open>
  C9, witness: the sentence without tokens between two copies of "Ann met Bob." is
  logged and skipped; the sentence after it is yielded with position 1.
\<close>

theorem parse_skips_failed_sentence_witness:
  "is_parsed example_doc \<and> sents example_doc = [example_sent] @ empty_sent # [example_sent] \<and>
   parse_sent Spacy no_stable_id empty_sent None 1 = Inl (IndexError ''list index out of range'') \<and>
   parse Spacy no_stable_id None example_doc =
     Inr [Yield (example_record 0), Warn 1 (IndexError ''list index out of range''),
          Yield (example_record 1)]"
proof -
  have a: "is_parsed example_doc"
    and b: "sents example_doc = [example_sent] @ empty_sent # [example_sent]"
    by (simp_all add: example_doc_def)
  have c: "1 = int (length (filter is_Yield (sentences_loop Spacy no_stable_id None 0 [example_sent])))"
    by (simp add: example_sent_parsed)
  have d: "parse_sent Spacy no_stable_id empty_sent None 1 =
             Inl (IndexError ''list index out of range'')"
    by (rule empty_sent_fails)
  from parse_skips_failed_sentence [OF a b c d] a b d show ?thesis
    by (simp add: example_sent_parsed)
qed

text \<open>
  C10. In every record \<open>parse\<close> yields, \<open>char_offsets\<close> and \<open>abs_char_offsets\<close> have the
  same length, entry \<open>i\<close> of \<open>char_offsets\<close> is entry \<open>i\<close> of \<open>abs_char_offsets\<close> minus its
  entry 0, and entry 0 of \<open>char_offsets\<close> is 0.
\<close>

theorem char_offsets_relative:
  assumes "parse self csi doc spacy = Inr events" and "Yield parts \<in> set events"
  shows "length (char_offsets parts) = length (abs_char_offsets parts) \<and>
         (\<forall>i<length (char_offsets parts).
            char_offsets parts ! i = abs_char_offsets parts ! i - abs_char_offsets parts ! 0) \<and>
         char_offsets parts ! 0 = 0"
proof -
  from assms have "Yield parts \<in> set (sentences_loop self csi doc 0 (sents spacy))"
    by (auto simp: parse_def split: if_splits)
  then obtain s p where ok: "parse_sent self csi s doc p = Inr parts"
    using sentences_loop_yield by blast
  note l = parse_sent_lists [OF ok]
  from l show ?thesis
    by (simp add: relative_offsets_nth relative_offsets_length)
qed

text \<open>
  C10, witness: the second record of the example document has absolute offsets 20, 24,
  28, 31 and relative offsets 0, 4, 8, 11.
\<close>

theorem char_offsets_relative_witness:
  "parse Spacy no_stable_id None example_doc =
     Inr [Yield (example_record 0), Warn 1 (IndexError ''list index out of range''),
          Yield (example_record 1)] \<and>
   char_offsets (example_record 1) = [0, 4, 8, 11] \<and>
   abs_char_offsets (example_record 1) = [20, 24, 28, 31] \<and>
   char_offsets (example_record 1) ! 2 =
     abs_char_offsets (example_record 1) ! 2 - abs_char_offsets (example_record 1) ! 0 \<and>
   char_offsets (example_record 1) ! 0 = 0"
proof -
  have y: "Yield (example_record 1) \<in> set [Yield (example_record 0),
      Warn 1 (IndexError ''list index out of range''), Yield (example_record 1)]" by simp
  have l: "2 < length (char_offsets (example_record 1))"
    by (simp add: example_record_def)
  note w = char_offsets_relative [OF example_doc_parsed y]
  from w have "\<forall>i<length (char_offsets (example_record 1)).
      char_offsets (example_record 1) ! i =
        abs_char_offsets (example_record 1) ! i - abs_char_offsets (example_record 1) ! 0"
    by blast
  then have "char_offsets (example_record 1) ! 2 =
     abs_char_offsets (example_record 1) ! 2 - abs_char_offsets (example_record 1) ! 0"
    using l by (elim allE [of _ 2]) simp
  moreover from w have "char_offsets (example_record 1) ! 0 = 0" by blast
  moreover have "char_offsets (example_record 1) = [0, 4, 8, 11]"
    "abs_char_offsets (example_record 1) = [20, 24, 28, 31]"
    by (simp_all add: example_record_def)
  ultimately show ?thesis using example_doc_parsed by blast
qed

end
